theory Spec2Isabelle
  imports Main "HOL-Library.Word"
begin

section \<open>The versioned tree of iavl\_versioned\_tree.go\<close>

text \<open>
  The file under verification holds the type \<^verbatim>\<open>VersionedTree\<close> and its methods. Everything
  the methods call (the orphaning tree, the base tree, the node database) lives in other
  files of the package. The embedding therefore keeps the methods of this file as they are
  written and takes every call that leaves the file as a parameter: a record of
  collaborators, over an opaque memory \<open>'w\<close> (the Go heap together with the node database
  behind \<^verbatim>\<open>tree.ndb\<close>), tree handles \<open>'t\<close> (a non-nil \<^verbatim>\<open>*orphaningTree\<close>) and node handles
  \<open>'n\<close> (a non-nil \<^verbatim>\<open>*IAVLNode\<close>). A pointer that may be nil is an \<open>option\<close> of a handle.
  Every theorem holds for all collaborators.
\<close>

subsection \<open>Data\<close>

type_synonym version = "64 word"  \<comment> \<open>\<^verbatim>\<open>uint64\<close>\<close>
type_synonym bytes = "8 word list"  \<comment> \<open>\<^verbatim>\<open>[]byte\<close>; a slice that may be nil is a \<open>bytes option\<close>\<close>

text \<open>
  The errors the file builds, one constructor per message, and \<open>OtherError\<close> for an error
  value that a collaborator hands back (\<^verbatim>\<open>getRoots\<close>, the proof readers).
  \<^verbatim>\<open>errors.WithStack\<close> only attaches a stack trace, so the wrapped
  \<^verbatim>\<open>ErrVersionDoesNotExist\<close> is the constructor itself.
\<close>

datatype error =
    ErrVersionDoesNotExist  \<comment> \<open>"version does not exist"\<close>
  | ErrNilRoot
  | AlreadySaved version  \<comment> \<open>"version %d was already saved"\<close>
  | MustBeGreaterThanZero  \<comment> \<open>SaveVersion: "version must be greater than zero"\<close>
  | MustBeGreaterThanLatest version version  \<comment> \<open>"version must be greater than latest (%d <= %d)"\<close>
  | MustBeGreaterThan0  \<comment> \<open>DeleteVersion: "version must be greater than 0"\<close>
  | CannotDeleteLatest version  \<comment> \<open>"cannot delete latest saved version (%d)"\<close>
  | OtherError string

text \<open>
  How a call ends: it returns normally, it returns an error, or it panics (a nil pointer
  is dereferenced, or a collaborator panics, which is how a failed storage write shows in
  this code: \<^verbatim>\<open>Commit\<close> has no error result).
\<close>

datatype 'a outcome = Ok 'a | Err error | Panic

text \<open>
  The fields of \<^verbatim>\<open>VersionedTree\<close>. The embedded \<^verbatim>\<open>*orphaningTree\<close> is the working tree; the
  constructor and both methods that assign it take it from \<^verbatim>\<open>newOrphaningTree\<close> or
  \<^verbatim>\<open>Clone\<close>, which return a new tree, so the field is a handle. A Go map holds no entry
  for an absent key and reads the zero value (nil) there: \<open>versions tree v = None\<close>.
  The field \<^verbatim>\<open>ndb\<close> is set once and never assigned again; the database it points to is
  part of the memory \<open>'w\<close>.
\<close>

record 't VersionedTree =
  orphaningTree :: 't
  versions :: "version \<rightharpoonup> 't"
  latestVersion :: version

text \<open>
  The calls that leave the file. A call that changes memory returns the new memory, or
  \<open>None\<close> when it panics.
\<close>

record ('w, 't, 'n) collab =
  newNodeDB :: "int \<Rightarrow> 'w \<Rightarrow> 'w"  \<comment> \<open>\<^verbatim>\<open>newNodeDB(cacheSize, db)\<close>\<close>
  newOrphaningTree :: "'w \<Rightarrow> 't \<times> 'w"  \<comment> \<open>\<^verbatim>\<open>newOrphaningTree(&IAVLTree{ndb: ndb})\<close>\<close>
  ot_Load :: "'t \<Rightarrow> bytes \<Rightarrow> 'w \<Rightarrow> 'w option"  \<comment> \<open>\<^verbatim>\<open>t.Load(root)\<close>\<close>
  ot_root :: "'w \<Rightarrow> 't \<Rightarrow> 'n option"  \<comment> \<open>the field \<^verbatim>\<open>t.root\<close>\<close>
  node_version :: "'w \<Rightarrow> 'n \<Rightarrow> version"  \<comment> \<open>the field \<^verbatim>\<open>node.version\<close>\<close>
  node_hash :: "'w \<Rightarrow> 'n \<Rightarrow> bytes option"  \<comment> \<open>the field \<^verbatim>\<open>node.hash\<close>\<close>
  ot_SaveVersion :: "'t \<Rightarrow> version \<Rightarrow> 'w \<Rightarrow> 'w option"  \<comment> \<open>\<^verbatim>\<open>t.SaveVersion(version)\<close>\<close>
  ot_Clone :: "'t option \<Rightarrow> 'w \<Rightarrow> ('t \<times> 'w) option"  \<comment> \<open>\<^verbatim>\<open>t.Clone()\<close>, the receiver may be nil\<close>
  getRoots :: "'w \<Rightarrow> error + bytes list"  \<comment> \<open>\<^verbatim>\<open>ndb.getRoots()\<close>\<close>
  SaveRoot :: "'n option \<Rightarrow> version \<Rightarrow> 'w \<Rightarrow> 'w option"  \<comment> \<open>\<^verbatim>\<open>ndb.SaveRoot(root, version)\<close>\<close>
  Commit :: "'w \<Rightarrow> 'w option"  \<comment> \<open>\<^verbatim>\<open>ndb.Commit()\<close>\<close>
  ndb_DeleteVersion :: "version \<Rightarrow> 'w \<Rightarrow> 'w option"  \<comment> \<open>\<^verbatim>\<open>ndb.DeleteVersion(version)\<close>\<close>

text \<open>The readers of a saved tree, with the result tuples of their Go signatures.\<close>

record ('w, 't, 'kp, 'rp, 'fp, 'lp) readers =
  ot_Get :: "'w \<Rightarrow> 't \<Rightarrow> bytes \<Rightarrow> int \<times> bytes option \<times> bool"
  ot_GetWithProof :: "'w \<Rightarrow> 't \<Rightarrow> bytes \<Rightarrow> bytes option \<times> 'kp option \<times> error option"
  ot_GetRangeWithProof ::
    "'w \<Rightarrow> 't \<Rightarrow> bytes \<Rightarrow> bytes \<Rightarrow> int \<Rightarrow>
      bytes list option \<times> bytes list option \<times> 'rp option \<times> error option"
  ot_GetFirstInRangeWithProof ::
    "'w \<Rightarrow> 't \<Rightarrow> bytes \<Rightarrow> bytes \<Rightarrow> bytes option \<times> bytes option \<times> 'fp option \<times> error option"
  ot_GetLastInRangeWithProof ::
    "'w \<Rightarrow> 't \<Rightarrow> bytes \<Rightarrow> bytes \<Rightarrow> bytes option \<times> bytes option \<times> 'lp option \<times> error option"

subsection \<open>Construction and the plain readers\<close>

definition NewVersionedTree ::
  "('w, 't, 'n) collab \<Rightarrow> int \<Rightarrow> 'w \<Rightarrow> 't VersionedTree \<times> 'w" where
  "NewVersionedTree C cacheSize w =
     (let w1 = newNodeDB C cacheSize w;
          (head, w2) = newOrphaningTree C w1
      in (\<lparr>orphaningTree = head, versions = Map.empty, latestVersion = 0\<rparr>, w2))"

definition LatestVersion :: "'t VersionedTree \<Rightarrow> version" where
  "LatestVersion tree = latestVersion tree"

definition VersionExists :: "'t VersionedTree \<Rightarrow> version \<Rightarrow> bool" where
  "VersionExists tree version = (case versions tree version of Some t \<Rightarrow> True | None \<Rightarrow> False)"

subsection \<open>Load\<close>

text \<open>
  The loop over the roots. A panic leaves the loop with the fields as the iterations before
  it set them; \<^verbatim>\<open>t.root.version\<close> panics when \<^verbatim>\<open>t.Load\<close> left the root nil.
\<close>

fun Load_roots ::
  "('w, 't, 'n) collab \<Rightarrow> bytes list \<Rightarrow> 't VersionedTree \<Rightarrow> 'w \<Rightarrow>
    unit outcome \<times> 't VersionedTree \<times> 'w" where
  "Load_roots C [] tree w = (Ok (), tree, w)"
| "Load_roots C (root # roots) tree w =
     (let (t, w1) = newOrphaningTree C w in
      case ot_Load C t root w1 of
        None \<Rightarrow> (Panic, tree, w1)
      | Some w2 \<Rightarrow>
          (case ot_root C w2 t of
            None \<Rightarrow> (Panic, tree, w2)
          | Some n \<Rightarrow>
              let version = node_version C w2 n;
                  tree1 = tree\<lparr>versions := (versions tree)(version \<mapsto> t)\<rparr>;
                  tree2 = (if version > latestVersion tree1
                           then tree1\<lparr>latestVersion := version\<rparr> else tree1)
              in Load_roots C roots tree2 w2))"

definition Load ::
  "('w, 't, 'n) collab \<Rightarrow> 't VersionedTree \<Rightarrow> 'w \<Rightarrow> unit outcome \<times> 't VersionedTree \<times> 'w" where
  "Load C tree w =
     (case getRoots C w of
        Inl err \<Rightarrow> (Err err, tree, w)
      | Inr roots \<Rightarrow>
          (case Load_roots C roots tree w of
            (Ok u, tree1, w1) \<Rightarrow>
              (case ot_Clone C (versions tree1 (latestVersion tree1)) w1 of
                None \<Rightarrow> (Panic, tree1, w1)
              | Some (t, w2) \<Rightarrow> (Ok (), tree1\<lparr>orphaningTree := t\<rparr>, w2))
          | (Err e, tree1, w1) \<Rightarrow> (Err e, tree1, w1)
          | (Panic, tree1, w1) \<Rightarrow> (Panic, tree1, w1)))"

subsection \<open>SaveVersion and DeleteVersion\<close>

definition SaveVersion ::
  "('w, 't, 'n) collab \<Rightarrow> version \<Rightarrow> 't VersionedTree \<Rightarrow> 'w \<Rightarrow>
    bytes option outcome \<times> 't VersionedTree \<times> 'w" where
  "SaveVersion C version tree w =
     (if versions tree version \<noteq> None then (Err (AlreadySaved version), tree, w)
      else if ot_root C w (orphaningTree tree) = None then (Err ErrNilRoot, tree, w)
      else if version = 0 then (Err MustBeGreaterThanZero, tree, w)
      else if version \<le> latestVersion tree
        then (Err (MustBeGreaterThanLatest version (latestVersion tree)), tree, w)
      else
        let tree1 = tree\<lparr>latestVersion := version\<rparr>;
            tree2 = tree1\<lparr>versions := (versions tree1)(version \<mapsto> orphaningTree tree1)\<rparr>
        in case ot_SaveVersion C (orphaningTree tree2) version w of
             None \<Rightarrow> (Panic, tree2, w)
           | Some w1 \<Rightarrow>
               (case ot_Clone C (Some (orphaningTree tree2)) w1 of
                 None \<Rightarrow> (Panic, tree2, w1)
               | Some (t, w2) \<Rightarrow>
                   let tree3 = tree2\<lparr>orphaningTree := t\<rparr> in
                   (case SaveRoot C (ot_root C w2 (orphaningTree tree3)) version w2 of
                     None \<Rightarrow> (Panic, tree3, w2)
                   | Some w3 \<Rightarrow>
                       (case Commit C w3 of
                         None \<Rightarrow> (Panic, tree3, w3)
                       | Some w4 \<Rightarrow>
                           (case ot_root C w4 (orphaningTree tree3) of
                             None \<Rightarrow> (Panic, tree3, w4)
                           | Some n \<Rightarrow> (Ok (node_hash C w4 n), tree3, w4))))))"

definition DeleteVersion ::
  "('w, 't, 'n) collab \<Rightarrow> version \<Rightarrow> 't VersionedTree \<Rightarrow> 'w \<Rightarrow>
    unit outcome \<times> 't VersionedTree \<times> 'w" where
  "DeleteVersion C version tree w =
     (if version = 0 then (Err MustBeGreaterThan0, tree, w)
      else if version = latestVersion tree then (Err (CannotDeleteLatest version), tree, w)
      else if versions tree version = None then (Err ErrVersionDoesNotExist, tree, w)
      else
        case ndb_DeleteVersion C version w of
          None \<Rightarrow> (Panic, tree, w)
        | Some w1 \<Rightarrow>
            (case Commit C w1 of
              None \<Rightarrow> (Panic, tree, w1)
            | Some w2 \<Rightarrow> (Ok (), tree\<lparr>versions := (versions tree)(version := None)\<rparr>, w2)))"

subsection \<open>The versioned readers\<close>

definition GetVersioned ::
  "('w, 't, 'kp, 'rp, 'fp, 'lp) readers \<Rightarrow> bytes \<Rightarrow> version \<Rightarrow> 't VersionedTree \<Rightarrow> 'w \<Rightarrow>
    int \<times> bytes option \<times> bool" where
  "GetVersioned R key version tree w =
     (case versions tree version of
        Some t \<Rightarrow> ot_Get R w t key
      | None \<Rightarrow> (- 1, None, False))"

definition GetVersionedWithProof ::
  "('w, 't, 'kp, 'rp, 'fp, 'lp) readers \<Rightarrow> bytes \<Rightarrow> version \<Rightarrow> 't VersionedTree \<Rightarrow> 'w \<Rightarrow>
    bytes option \<times> 'kp option \<times> error option" where
  "GetVersionedWithProof R key version tree w =
     (case versions tree version of
        Some t \<Rightarrow> ot_GetWithProof R w t key
      | None \<Rightarrow> (None, None, Some ErrVersionDoesNotExist))"

definition GetVersionedRangeWithProof ::
  "('w, 't, 'kp, 'rp, 'fp, 'lp) readers \<Rightarrow> bytes \<Rightarrow> bytes \<Rightarrow> int \<Rightarrow> version \<Rightarrow>
    't VersionedTree \<Rightarrow> 'w \<Rightarrow>
    bytes list option \<times> bytes list option \<times> 'rp option \<times> error option" where
  "GetVersionedRangeWithProof R startKey endKey limit version tree w =
     (case versions tree version of
        Some t \<Rightarrow> ot_GetRangeWithProof R w t startKey endKey limit
      | None \<Rightarrow> (None, None, None, Some ErrVersionDoesNotExist))"

definition GetVersionedFirstInRangeWithProof ::
  "('w, 't, 'kp, 'rp, 'fp, 'lp) readers \<Rightarrow> bytes \<Rightarrow> bytes \<Rightarrow> version \<Rightarrow>
    't VersionedTree \<Rightarrow> 'w \<Rightarrow> bytes option \<times> bytes option \<times> 'fp option \<times> error option" where
  "GetVersionedFirstInRangeWithProof R startKey endKey version tree w =
     (case versions tree version of
        Some t \<Rightarrow> ot_GetFirstInRangeWithProof R w t startKey endKey
      | None \<Rightarrow> (None, None, None, Some ErrVersionDoesNotExist))"

definition GetVersionedLastInRangeWithProof ::
  "('w, 't, 'kp, 'rp, 'fp, 'lp) readers \<Rightarrow> bytes \<Rightarrow> bytes \<Rightarrow> version \<Rightarrow>
    't VersionedTree \<Rightarrow> 'w \<Rightarrow> bytes option \<times> bytes option \<times> 'lp option \<times> error option" where
  "GetVersionedLastInRangeWithProof R startKey endKey version tree w =
     (case versions tree version of
        Some t \<Rightarrow> ot_GetLastInRangeWithProof R w t startKey endKey
      | None \<Rightarrow> (None, None, None, Some ErrVersionDoesNotExist))"

subsection \<open>The operations as one step\<close>

text \<open>
  One call of a method, as the change it makes to the fields and to memory. The readers
  assign no field of the tree, so they leave both as they are.
\<close>

datatype op =
    OpLoad
  | OpSaveVersion version
  | OpDeleteVersion version
  | OpLatestVersion
  | OpVersionExists version
  | OpGetVersioned bytes version
  | OpGetVersionedWithProof bytes version
  | OpGetVersionedRangeWithProof bytes bytes int version
  | OpGetVersionedFirstInRangeWithProof bytes bytes version
  | OpGetVersionedLastInRangeWithProof bytes bytes version

fun run_op ::
  "('w, 't, 'n) collab \<Rightarrow> op \<Rightarrow> 't VersionedTree \<Rightarrow> 'w \<Rightarrow> 't VersionedTree \<times> 'w" where
  "run_op C OpLoad tree w = snd (Load C tree w)"
| "run_op C (OpSaveVersion version) tree w = snd (SaveVersion C version tree w)"
| "run_op C (OpDeleteVersion version) tree w = snd (DeleteVersion C version tree w)"
| "run_op C other tree w = (tree, w)"

subsection \<open>Predicates of the statements\<close>

text \<open>Every key of the version map is positive and at most the latest version.\<close>

definition versions_inv :: "'t VersionedTree \<Rightarrow> bool" where
  "versions_inv tree = (\<forall>v. versions tree v \<noteq> None \<longrightarrow> 0 < v \<and> v \<le> latestVersion tree)"

text \<open>
  The latest version is a saved one, unless nothing was saved yet. Every state the
  operations produce has this form (\<open>latest_is_saved_run_op\<close> below).
\<close>

definition latest_is_saved :: "'t VersionedTree \<Rightarrow> bool" where
  "latest_is_saved tree = (latestVersion tree = 0 \<or> versions tree (latestVersion tree) \<noteq> None)"

text \<open>
  Every root that the loop of \<open>Load\<close> reads from the store carries a positive version.
  It follows the loop's own calls, and asks nothing of a root the loop never reaches.
\<close>

fun stored_versions_positive :: "('w, 't, 'n) collab \<Rightarrow> bytes list \<Rightarrow> 'w \<Rightarrow> bool" where
  "stored_versions_positive C [] w = True"
| "stored_versions_positive C (root # roots) w =
     (let (t, w1) = newOrphaningTree C w in
      case ot_Load C t root w1 of
        None \<Rightarrow> True
      | Some w2 \<Rightarrow>
          (case ot_root C w2 t of
            None \<Rightarrow> True
          | Some n \<Rightarrow> 0 < node_version C w2 n \<and> stored_versions_positive C roots w2))"


subsection \<open>A small node store to run the methods on\<close>

text \<open>
  Modelled from the spec: the orphaning tree and the node store are not in this file, so the
  concrete runs below use a minimal stand-in for them. A tree handle is a number, a tree
  holds its root node (or nil), and the store holds the root pointers: the version given to
  \<^verbatim>\<open>SaveRoot\<close> with the root saved under it, a root being found again by its hash. The
  orphaning tree's \<^verbatim>\<open>SaveVersion\<close> stamps the version on a root that carries none yet
  (version 0) and leaves a stamped root alone. A commit moves the pending root pointers into
  the store, and \<open>commit_fails\<close> makes the storage write fail. \<^verbatim>\<open>Clone\<close> shares the root of its
  receiver and dereferences it, so it panics on nil.
  The theorems do not depend on this stand-in; it only supplies concrete inputs.
\<close>

record sim_node =
  nhash :: bytes
  nversion :: version

record sim =
  next_tree :: nat
  tree_root :: "nat \<Rightarrow> sim_node option"
  stored :: "(version \<times> sim_node) list"
  pending :: "(version \<times> sim_node) list"
  commit_fails :: bool

definition sim_collab :: "(sim, nat, sim_node) collab" where
  "sim_collab =
     \<lparr>newNodeDB = (\<lambda>cacheSize w. w),
      newOrphaningTree = (\<lambda>w. (next_tree w,
         w\<lparr>next_tree := Suc (next_tree w), tree_root := (tree_root w)(next_tree w := None)\<rparr>)),
      ot_Load = (\<lambda>t root w. Some (w\<lparr>tree_root :=
         (tree_root w)(t := map_of (map (\<lambda>(v, n). (nhash n, n)) (stored w)) root)\<rparr>)),
      ot_root = (\<lambda>w t. tree_root w t),
      node_version = (\<lambda>w n. nversion n),
      node_hash = (\<lambda>w n. Some (nhash n)),
      ot_SaveVersion = (\<lambda>t v w. Some (w\<lparr>tree_root :=
         (tree_root w)(t := map_option (\<lambda>n. if nversion n = 0 then n\<lparr>nversion := v\<rparr> else n)
           (tree_root w t))\<rparr>)),
      ot_Clone = (\<lambda>p w. case p of
           None \<Rightarrow> None
         | Some t \<Rightarrow> Some (next_tree w,
             w\<lparr>next_tree := Suc (next_tree w),
               tree_root := (tree_root w)(next_tree w := tree_root w t)\<rparr>)),
      getRoots = (\<lambda>w. Inr (map (\<lambda>(v, n). nhash n) (stored w))),
      SaveRoot = (\<lambda>n v w. case n of
           None \<Rightarrow> None
         | Some r \<Rightarrow> Some (w\<lparr>pending := pending w @ [(v, r)]\<rparr>)),
      Commit = (\<lambda>w. if commit_fails w then None
         else Some (w\<lparr>stored := stored w @ pending w, pending := []\<rparr>)),
      ndb_DeleteVersion = (\<lambda>v w. Some (w\<lparr>stored := filter (\<lambda>(u, n). u \<noteq> v) (stored w)\<rparr>))\<rparr>"

definition sim_readers :: "(sim, nat, unit, unit, unit, unit) readers" where
  "sim_readers =
     \<lparr>ot_Get = (\<lambda>w t key. case tree_root w t of
           None \<Rightarrow> (0, None, False)
         | Some n \<Rightarrow> if key = [1] then (0, Some (nhash n), True) else (0, None, False)),
      ot_GetWithProof = (\<lambda>w t key. (map_option nhash (tree_root w t), Some (), None)),
      ot_GetRangeWithProof = (\<lambda>w t startKey endKey limit. (Some [], Some [], Some (), None)),
      ot_GetFirstInRangeWithProof = (\<lambda>w t startKey endKey. (None, None, Some (), None)),
      ot_GetLastInRangeWithProof = (\<lambda>w t startKey endKey. (None, None, Some (), None))\<rparr>"

text \<open>
  An empty store, and a working tree \<open>0\<close> that holds one unsaved root.
\<close>

definition sim_empty :: sim where
  "sim_empty = \<lparr>next_tree = 0, tree_root = (\<lambda>t. None), stored = [], pending = [],
     commit_fails = False\<rparr>"

definition sim_world :: sim where
  "sim_world = \<lparr>next_tree = 1, tree_root = (\<lambda>t. None)(0 := Some \<lparr>nhash = [7], nversion = 0\<rparr>),
     stored = [], pending = [], commit_fails = False\<rparr>"

definition sim_tree :: "nat VersionedTree" where
  "sim_tree = \<lparr>orphaningTree = 0, versions = Map.empty, latestVersion = 0\<rparr>"


text \<open>The same store, but its storage write fails.\<close>

definition sim_failing :: sim where
  "sim_failing = sim_world\<lparr>commit_fails := True\<rparr>"

text \<open>
  The state after versions 1 and 2 were saved: trees \<open>0\<close> and \<open>1\<close> are the saved versions,
  tree \<open>2\<close> is the working tree, and the store holds both roots.
\<close>

definition sim_world2 :: sim where
  "sim_world2 = \<lparr>next_tree = 3,
     tree_root = (\<lambda>t. None)(0 := Some \<lparr>nhash = [7], nversion = 1\<rparr>,
       1 := Some \<lparr>nhash = [8], nversion = 2\<rparr>, 2 := Some \<lparr>nhash = [8], nversion = 2\<rparr>),
     stored = [(1, \<lparr>nhash = [7], nversion = 1\<rparr>), (2, \<lparr>nhash = [8], nversion = 2\<rparr>)],
     pending = [], commit_fails = False\<rparr>"

definition sim_tree2 :: "nat VersionedTree" where
  "sim_tree2 = \<lparr>orphaningTree = 2, versions = [1 \<mapsto> 0, 2 \<mapsto> 1], latestVersion = 2\<rparr>"

text \<open>A store that holds a single root, whose node carries version 0.\<close>

definition sim_world0 :: sim where
  "sim_world0 = sim_empty\<lparr>stored := [(0, \<lparr>nhash = [9], nversion = 0\<rparr>)]\<rparr>"

lemmas sim_defs = sim_collab_def sim_readers_def sim_empty_def sim_world_def sim_tree_def
  sim_failing_def sim_world2_def sim_tree2_def sim_world0_def

section \<open>SaveVersion is strictly monotonic\<close>

text \<open>
  C1. For every tree state, \<open>SaveVersion\<close> with a version at most \<open>latestVersion\<close>
  returns an error and changes nothing; and when a call of \<open>SaveVersion\<close> with a version
  succeeds, a second call with the same version, in whatever memory, returns the error
  "version was already saved".
\<close>

theorem SaveVersion_strictly_monotonic:
  "(version \<le> latestVersion tree \<longrightarrow> (\<exists>e. SaveVersion C version tree w = (Err e, tree, w))) \<and>
   (\<forall>h tree' w' w''. SaveVersion C version tree w = (Ok h, tree', w') \<longrightarrow>
      SaveVersion C version tree' w'' = (Err (AlreadySaved version), tree', w''))"
  by (auto simp: SaveVersion_def Let_def split: option.splits if_splits)

theorem SaveVersion_strictly_monotonic_witness:
  "(case SaveVersion sim_collab 1 sim_tree sim_world of
      (Ok h, tree', w') \<Rightarrow>
        1 \<le> latestVersion tree' \<and>
        SaveVersion sim_collab 1 tree' w' = (Err (AlreadySaved 1), tree', w')
    | (Err e, tree', w') \<Rightarrow> False
    | (Panic, tree', w') \<Rightarrow> False)"
  using SaveVersion_strictly_monotonic [of 1 sim_tree sim_collab sim_world]
  by (simp add: SaveVersion_def sim_defs)

section \<open>The latest version never decreases\<close>

lemma Load_roots_latest_mono:
  "latestVersion tree \<le> latestVersion (fst (snd (Load_roots C roots tree w)))"
proof (induction roots arbitrary: tree w)
  case Nil
  show ?case by simp
next
  case (Cons root roots)
  show ?case
  proof (cases "newOrphaningTree C w")
    case (Pair t w1)
    show ?thesis
    proof (cases "ot_Load C t root w1")
      case None
      with Pair show ?thesis by simp
    next
      case loaded: (Some w2)
      show ?thesis
      proof (cases "ot_root C w2 t")
        case None
        with Pair loaded show ?thesis by simp
      next
        case (Some n)
        let ?v = "node_version C w2 n"
        let ?tree2 = "(if latestVersion tree < ?v
             then tree\<lparr>versions := (versions tree)(?v \<mapsto> t), latestVersion := ?v\<rparr>
             else tree\<lparr>versions := (versions tree)(?v \<mapsto> t)\<rparr>)"
        have step: "Load_roots C (root # roots) tree w = Load_roots C roots ?tree2 w2"
          using Pair loaded Some by (simp add: Let_def)
        have "latestVersion tree \<le> latestVersion ?tree2"
          by (simp add: less_imp_le)
        also have "\<dots> \<le> latestVersion (fst (snd (Load_roots C roots ?tree2 w2)))"
          by (rule Cons.IH)
        finally show ?thesis using step by simp
      qed
    qed
  qed
qed

lemma Load_latest_mono: "latestVersion tree \<le> latestVersion (fst (snd (Load C tree w)))"
proof (cases "getRoots C w")
  case (Inl err)
  then show ?thesis by (simp add: Load_def)
next
  case (Inr roots)
  obtain r tree1 w1 where lr: "Load_roots C roots tree w = (r, tree1, w1)"
    by (cases "Load_roots C roots tree w") auto
  have "latestVersion tree \<le> latestVersion tree1"
    using Load_roots_latest_mono [of tree C roots w] lr by simp
  then show ?thesis using Inr lr
    by (cases r) (auto simp: Load_def split: option.splits)
qed

lemma SaveVersion_latest_mono:
  "latestVersion tree \<le> latestVersion (fst (snd (SaveVersion C version tree w)))"
  by (auto simp: SaveVersion_def Let_def split: option.splits)

lemma DeleteVersion_latest_same:
  "latestVersion (fst (snd (DeleteVersion C version tree w))) = latestVersion tree"
  by (auto simp: DeleteVersion_def split: option.splits)

text \<open>
  C7. No operation makes \<open>LatestVersion\<close> smaller: whatever the operation and however it
  ends (normally, with an error or with a panic), the value afterwards is at least the
  value before.
\<close>

theorem LatestVersion_never_decreases:
  "LatestVersion tree \<le> LatestVersion (fst (run_op C op tree w))"
  by (cases op)
    (simp_all add: LatestVersion_def Load_latest_mono SaveVersion_latest_mono
      DeleteVersion_latest_same)

theorem LatestVersion_never_decreases_witness:
  "LatestVersion sim_tree \<le> LatestVersion (fst (run_op sim_collab (OpSaveVersion 1) sim_tree sim_world))
   \<and> LatestVersion (fst (run_op sim_collab (OpSaveVersion 1) sim_tree sim_world)) = 1"
  using LatestVersion_never_decreases [of sim_tree sim_collab "OpSaveVersion 1" sim_world]
  by (simp add: LatestVersion_def SaveVersion_def sim_defs)

section \<open>The errors of DeleteVersion\<close>

lemma Load_roots_latest_is_saved:
  "latest_is_saved tree \<Longrightarrow> latest_is_saved (fst (snd (Load_roots C roots tree w)))"
proof (induction roots arbitrary: tree w)
  case Nil
  then show ?case by simp
next
  case (Cons root roots)
  show ?case
  proof (cases "newOrphaningTree C w")
    case (Pair t w1)
    show ?thesis
    proof (cases "ot_Load C t root w1")
      case None
      with Pair Cons.prems show ?thesis by simp
    next
      case loaded: (Some w2)
      show ?thesis
      proof (cases "ot_root C w2 t")
        case None
        with Pair loaded Cons.prems show ?thesis by simp
      next
        case (Some n)
        let ?v = "node_version C w2 n"
        let ?tree2 = "(if latestVersion tree < ?v
             then tree\<lparr>versions := (versions tree)(?v \<mapsto> t), latestVersion := ?v\<rparr>
             else tree\<lparr>versions := (versions tree)(?v \<mapsto> t)\<rparr>)"
        have step: "Load_roots C (root # roots) tree w = Load_roots C roots ?tree2 w2"
          using Pair loaded Some by (simp add: Let_def)
        have "latest_is_saved ?tree2"
          using Cons.prems by (simp add: latest_is_saved_def)
        then have "latest_is_saved (fst (snd (Load_roots C roots ?tree2 w2)))"
          by (rule Cons.IH)
        then show ?thesis using step by simp
      qed
    qed
  qed
qed

lemma Load_latest_is_saved:
  assumes "latest_is_saved tree"
  shows "latest_is_saved (fst (snd (Load C tree w)))"
proof (cases "getRoots C w")
  case (Inl err)
  then show ?thesis using assms by (simp add: Load_def)
next
  case (Inr roots)
  obtain r tree1 w1 where lr: "Load_roots C roots tree w = (r, tree1, w1)"
    by (cases "Load_roots C roots tree w") auto
  have "latest_is_saved tree1"
    using Load_roots_latest_is_saved [OF assms, of C roots w] lr by simp
  then show ?thesis using Inr lr
    by (cases r) (auto simp: Load_def latest_is_saved_def split: option.splits)
qed

lemma SaveVersion_latest_is_saved:
  "latest_is_saved tree \<Longrightarrow> latest_is_saved (fst (snd (SaveVersion C version tree w)))"
  by (auto simp: SaveVersion_def Let_def latest_is_saved_def split: option.splits)

lemma DeleteVersion_latest_is_saved:
  "latest_is_saved tree \<Longrightarrow> latest_is_saved (fst (snd (DeleteVersion C version tree w)))"
  by (auto simp: DeleteVersion_def latest_is_saved_def split: option.splits)

lemma latest_is_saved_NewVersionedTree:
  "latest_is_saved (fst (NewVersionedTree C cacheSize w))"
  by (simp add: NewVersionedTree_def latest_is_saved_def Let_def split: prod.splits)

lemma latest_is_saved_run_op:
  "latest_is_saved tree \<Longrightarrow> latest_is_saved (fst (run_op C op tree w))"
  by (cases op)
    (simp_all add: Load_latest_is_saved SaveVersion_latest_is_saved
      DeleteVersion_latest_is_saved)

text \<open>
  C2, as the code has it. In every tree state: deleting the latest version, when one was
  saved (it is then not 0), returns "cannot delete latest saved version"; deleting a
  version other than 0 that is not in the version map returns "version does not exist",
  in a state whose latest version is a saved one or 0; and deleting version 0 returns the
  separate error "version must be greater than 0", which the first check of the method
  produces before the version map is consulted. Each of the three leaves the fields and
  memory as they were.
\<close>

theorem DeleteVersion_errors:
  "(latestVersion tree \<noteq> 0 \<longrightarrow>
      DeleteVersion C (latestVersion tree) tree w =
        (Err (CannotDeleteLatest (latestVersion tree)), tree, w)) \<and>
   (latest_is_saved tree \<and> version \<noteq> 0 \<and> versions tree version = None \<longrightarrow>
      DeleteVersion C version tree w = (Err ErrVersionDoesNotExist, tree, w)) \<and>
   DeleteVersion C 0 tree w = (Err MustBeGreaterThan0, tree, w)"
  by (auto simp: DeleteVersion_def latest_is_saved_def)

theorem DeleteVersion_errors_witness:
  "latestVersion sim_tree2 \<noteq> 0 \<and> latest_is_saved sim_tree2 \<and> versions sim_tree2 5 = None \<and>
   DeleteVersion sim_collab 2 sim_tree2 sim_world2 =
     (Err (CannotDeleteLatest 2), sim_tree2, sim_world2) \<and>
   DeleteVersion sim_collab 5 sim_tree2 sim_world2 =
     (Err ErrVersionDoesNotExist, sim_tree2, sim_world2) \<and>
   DeleteVersion sim_collab 0 sim_tree2 sim_world2 =
     (Err MustBeGreaterThan0, sim_tree2, sim_world2)"
  using DeleteVersion_errors [of sim_tree2 sim_collab sim_world2 5]
  by (simp add: latest_is_saved_def sim_tree2_def)

text \<open>
  The claim as stated fails at version 0: on the new tree, where 0 is not in the version
  map, \<open>DeleteVersion 0\<close> does not return "version does not exist".
\<close>

theorem DeleteVersion_zero_counterexample:
  "versions sim_tree 0 = None \<and>
   DeleteVersion sim_collab 0 sim_tree sim_world = (Err MustBeGreaterThan0, sim_tree, sim_world) \<and>
   fst (DeleteVersion sim_collab 0 sim_tree sim_world) \<noteq> Err ErrVersionDoesNotExist"
  by (simp add: DeleteVersion_def sim_tree_def)

section \<open>SaveVersion and the storage commit\<close>

text \<open>
  \<open>DeleteVersion\<close> commits first and touches the version map last: when its commit fails,
  the fields are as they were.
\<close>

lemma DeleteVersion_commit_failure:
  assumes "version \<noteq> 0" and "version \<noteq> latestVersion tree"
    and "versions tree version \<noteq> None"
    and "ndb_DeleteVersion C version w = Some w1" and "Commit C w1 = None"
  shows "DeleteVersion C version tree w = (Panic, tree, w1)"
  using assms by (simp add: DeleteVersion_def)

lemma SaveVersion_error_unchanged:
  "SaveVersion C version tree w = (Err e, tree', w') \<Longrightarrow> tree' = tree \<and> w' = w"
  by (auto simp: SaveVersion_def Let_def split: if_splits option.splits)

text \<open>
  C3. The code does not do what the claim says. \<open>SaveVersion\<close> assigns \<open>latestVersion\<close> and
  registers the version as soon as its four checks pass, and commits last. So for every
  tree state and all collaborators: when the checks pass, every call before the commit
  returns and the commit fails, the method panics with \<open>latestVersion\<close> already equal to the
  new version and the old working tree already registered under it, both different from
  what they were before the call. Nothing is rolled back.
\<close>

theorem SaveVersion_updates_before_commit:
  assumes "versions tree version = None"
    and "ot_root C w (orphaningTree tree) \<noteq> None"
    and "latestVersion tree < version"
    and "ot_SaveVersion C (orphaningTree tree) version w = Some w1"
    and "ot_Clone C (Some (orphaningTree tree)) w1 = Some (t, w2)"
    and "SaveRoot C (ot_root C w2 t) version w2 = Some w3"
    and "Commit C w3 = None"
  shows "SaveVersion C version tree w =
      (Panic, \<lparr>orphaningTree = t, versions = (versions tree)(version \<mapsto> orphaningTree tree),
         latestVersion = version\<rparr>, w3) \<and>
    latestVersion (fst (snd (SaveVersion C version tree w))) \<noteq> latestVersion tree \<and>
    versions (fst (snd (SaveVersion C version tree w))) version \<noteq> versions tree version"
proof -
  from assms(3) have "version \<noteq> 0" and "\<not> version \<le> latestVersion tree"
    and "version \<noteq> latestVersion tree"
    by (auto simp: not_le)
  with assms show ?thesis by (simp add: SaveVersion_def Let_def)
qed

theorem SaveVersion_updates_before_commit_witness:
  "latestVersion sim_tree = 0 \<and> versions sim_tree 1 = None \<and>
   SaveVersion sim_collab 1 sim_tree sim_failing =
     (Panic, \<lparr>orphaningTree = 1, versions = [1 \<mapsto> 0], latestVersion = 1\<rparr>,
      sim_failing\<lparr>next_tree := 2,
        tree_root := (\<lambda>t. None)(0 := Some \<lparr>nhash = [7], nversion = 1\<rparr>,
          1 := Some \<lparr>nhash = [7], nversion = 1\<rparr>),
        pending := [(1, \<lparr>nhash = [7], nversion = 1\<rparr>)]\<rparr>)"
proof -
  let ?n = "\<lparr>nhash = [7], nversion = 1\<rparr>"
  let ?w1 = "sim_failing\<lparr>tree_root := (\<lambda>t. None)(0 := Some ?n)\<rparr>"
  let ?w2 = "sim_failing\<lparr>next_tree := 2, tree_root := (\<lambda>t. None)(0 := Some ?n, 1 := Some ?n)\<rparr>"
  let ?w3 = "sim_failing\<lparr>next_tree := 2, tree_root := (\<lambda>t. None)(0 := Some ?n, 1 := Some ?n),
      pending := [(1, ?n)]\<rparr>"
  have 1: "versions sim_tree 1 = None"
    and 2: "ot_root sim_collab sim_failing (orphaningTree sim_tree) \<noteq> None"
    and 3: "latestVersion sim_tree < 1"
    by (simp_all add: sim_defs)
  have 4: "ot_SaveVersion sim_collab (orphaningTree sim_tree) 1 sim_failing = Some ?w1"
    by (simp add: sim_defs)
  have 5: "ot_Clone sim_collab (Some (orphaningTree sim_tree)) ?w1 = Some (1, ?w2)"
    by (simp add: sim_defs)
  have 6: "SaveRoot sim_collab (ot_root sim_collab ?w2 1) 1 ?w2 = Some ?w3"
    by (simp add: sim_defs)
  have 7: "Commit sim_collab ?w3 = None"
    by (simp add: sim_defs)
  from SaveVersion_updates_before_commit [OF 1 2 3 4 5 6 7] 1 show ?thesis
    by (simp add: sim_defs)
qed

section \<open>A successful SaveVersion\<close>

text \<open>
  C4. In every tree state whose working tree has a root, for every version greater than
  \<open>latestVersion\<close> (so greater than 0) and not saved yet, when the calls into the
  orphaning tree and the node store return: \<open>SaveVersion\<close> succeeds, the old working tree
  (frozen by its own \<open>SaveVersion\<close>) is registered under the version, \<open>latestVersion\<close> is
  the version, the working tree is the clone that \<open>Clone\<close> made of the frozen tree, and the
  result is the hash of the root of that clone.
\<close>

theorem SaveVersion_success:
  assumes "ot_root C w (orphaningTree tree) \<noteq> None"
    and "latestVersion tree < version"
    and "versions tree version = None"
    and "ot_SaveVersion C (orphaningTree tree) version w = Some w1"
    and "ot_Clone C (Some (orphaningTree tree)) w1 = Some (t, w2)"
    and "SaveRoot C (ot_root C w2 t) version w2 = Some w3"
    and "Commit C w3 = Some w4"
    and "ot_root C w4 t = Some n"
  shows "SaveVersion C version tree w =
    (Ok (node_hash C w4 n),
     \<lparr>orphaningTree = t, versions = (versions tree)(version \<mapsto> orphaningTree tree),
       latestVersion = version\<rparr>, w4)"
proof -
  from assms(2) have "version \<noteq> 0" and "\<not> version \<le> latestVersion tree"
    by (auto simp: not_le)
  with assms show ?thesis by (simp add: SaveVersion_def Let_def)
qed

theorem SaveVersion_success_witness:
  "SaveVersion sim_collab 1 sim_tree sim_world =
     (Ok (Some [7]), \<lparr>orphaningTree = 1, versions = [1 \<mapsto> 0], latestVersion = 1\<rparr>,
      sim_world\<lparr>next_tree := 2,
        tree_root := (\<lambda>t. None)(0 := Some \<lparr>nhash = [7], nversion = 1\<rparr>,
          1 := Some \<lparr>nhash = [7], nversion = 1\<rparr>),
        stored := [(1, \<lparr>nhash = [7], nversion = 1\<rparr>)]\<rparr>)"
proof -
  let ?n = "\<lparr>nhash = [7], nversion = 1\<rparr>"
  let ?w1 = "sim_world\<lparr>tree_root := (\<lambda>t. None)(0 := Some ?n)\<rparr>"
  let ?w2 = "sim_world\<lparr>next_tree := 2, tree_root := (\<lambda>t. None)(0 := Some ?n, 1 := Some ?n)\<rparr>"
  let ?w3 = "sim_world\<lparr>next_tree := 2, tree_root := (\<lambda>t. None)(0 := Some ?n, 1 := Some ?n),
      pending := [(1, ?n)]\<rparr>"
  let ?w4 = "sim_world\<lparr>next_tree := 2, tree_root := (\<lambda>t. None)(0 := Some ?n, 1 := Some ?n),
      stored := [(1, ?n)]\<rparr>"
  have 1: "ot_root sim_collab sim_world (orphaningTree sim_tree) \<noteq> None"
    by (simp add: sim_defs)
  have 2: "latestVersion sim_tree < 1" and 3: "versions sim_tree 1 = None"
    by (simp_all add: sim_defs)
  have 4: "ot_SaveVersion sim_collab (orphaningTree sim_tree) 1 sim_world = Some ?w1"
    by (simp add: sim_defs)
  have 5: "ot_Clone sim_collab (Some (orphaningTree sim_tree)) ?w1 = Some (1, ?w2)"
    by (simp add: sim_defs)
  have 6: "SaveRoot sim_collab (ot_root sim_collab ?w2 1) 1 ?w2 = Some ?w3"
    by (simp add: sim_defs)
  have 7: "Commit sim_collab ?w3 = Some ?w4"
    by (simp add: sim_defs)
  have 8: "ot_root sim_collab ?w4 1 = Some ?n"
    by (simp add: sim_defs)
  from SaveVersion_success [OF 1 2 3 4 5 6 7 8] show ?thesis
    by (simp add: sim_defs)
qed

section \<open>What DeleteVersion leaves alone\<close>

text \<open>
  C5. After a successful \<open>DeleteVersion\<close> of a version, \<open>VersionExists\<close> of that version
  is false; every other version has the entry in the version map that it had before, so
  it exists exactly when it did and \<open>GetVersioned\<close> resolves it to the same tree; the
  working tree and \<open>latestVersion\<close> are unchanged.
\<close>

theorem DeleteVersion_frame:
  assumes "DeleteVersion C version tree w = (Ok u, tree', w')"
  shows "\<not> VersionExists tree' version \<and>
    (\<forall>v. v \<noteq> version \<longrightarrow> versions tree' v = versions tree v \<and>
       VersionExists tree' v = VersionExists tree v \<and>
       (\<forall>key. GetVersioned R key v tree' w' = GetVersioned R key v tree w')) \<and>
    orphaningTree tree' = orphaningTree tree \<and>
    latestVersion tree' = latestVersion tree"
proof -
  from assms have "tree' = tree\<lparr>versions := (versions tree)(version := None)\<rparr>"
    by (auto simp: DeleteVersion_def split: if_splits option.splits)
  then show ?thesis by (simp add: VersionExists_def GetVersioned_def)
qed

theorem DeleteVersion_frame_witness:
  "DeleteVersion sim_collab 1 sim_tree2 sim_world2 =
     (Ok (), sim_tree2\<lparr>versions := [2 \<mapsto> 1]\<rparr>,
      sim_world2\<lparr>stored := [(2, \<lparr>nhash = [8], nversion = 2\<rparr>)]\<rparr>) \<and>
   \<not> VersionExists (sim_tree2\<lparr>versions := [2 \<mapsto> 1]\<rparr>) 1 \<and>
   VersionExists (sim_tree2\<lparr>versions := [2 \<mapsto> 1]\<rparr>) 2 \<and>
   GetVersioned sim_readers [1] 2 (sim_tree2\<lparr>versions := [2 \<mapsto> 1]\<rparr>)
     (sim_world2\<lparr>stored := [(2, \<lparr>nhash = [8], nversion = 2\<rparr>)]\<rparr>) = (0, Some [8], True)"
proof -
  have run: "DeleteVersion sim_collab 1 sim_tree2 sim_world2 =
     (Ok (), sim_tree2\<lparr>versions := [2 \<mapsto> 1]\<rparr>,
      sim_world2\<lparr>stored := [(2, \<lparr>nhash = [8], nversion = 2\<rparr>)]\<rparr>)"
    by (simp add: DeleteVersion_def sim_defs)
  from DeleteVersion_frame [OF run, of sim_readers] run show ?thesis
    by (simp add: VersionExists_def GetVersioned_def sim_defs)
qed

section \<open>The versioned readers\<close>

text \<open>
  C6. For a version that is not in the version map, no reader consults a tree:
  \<open>GetVersioned\<close> returns its fixed not-found triple \<open>(-1, nil, false)\<close> (it has no error
  result), and the four proof readers return the error \<^verbatim>\<open>ErrVersionDoesNotExist\<close> with nil
  results. For a version that is in the map, each reader returns what the reader of the
  same name of that version's tree returns; a reader changes no field.
\<close>

theorem versioned_reads:
  "(versions tree version = None \<longrightarrow>
      GetVersioned R key version tree w = (- 1, None, False) \<and>
      GetVersionedWithProof R key version tree w = (None, None, Some ErrVersionDoesNotExist) \<and>
      GetVersionedRangeWithProof R startKey endKey limit version tree w =
        (None, None, None, Some ErrVersionDoesNotExist) \<and>
      GetVersionedFirstInRangeWithProof R startKey endKey version tree w =
        (None, None, None, Some ErrVersionDoesNotExist) \<and>
      GetVersionedLastInRangeWithProof R startKey endKey version tree w =
        (None, None, None, Some ErrVersionDoesNotExist)) \<and>
   (\<forall>t. versions tree version = Some t \<longrightarrow>
      GetVersioned R key version tree w = ot_Get R w t key \<and>
      GetVersionedWithProof R key version tree w = ot_GetWithProof R w t key \<and>
      GetVersionedRangeWithProof R startKey endKey limit version tree w =
        ot_GetRangeWithProof R w t startKey endKey limit \<and>
      GetVersionedFirstInRangeWithProof R startKey endKey version tree w =
        ot_GetFirstInRangeWithProof R w t startKey endKey \<and>
      GetVersionedLastInRangeWithProof R startKey endKey version tree w =
        ot_GetLastInRangeWithProof R w t startKey endKey)"
  by (simp add: GetVersioned_def GetVersionedWithProof_def GetVersionedRangeWithProof_def
      GetVersionedFirstInRangeWithProof_def GetVersionedLastInRangeWithProof_def)

theorem versioned_reads_witness:
  "versions sim_tree2 5 = None \<and> versions sim_tree2 2 = Some 1 \<and>
   GetVersioned sim_readers [1] 5 sim_tree2 sim_world2 = (- 1, None, False) \<and>
   GetVersionedWithProof sim_readers [1] 5 sim_tree2 sim_world2 =
     (None, None, Some ErrVersionDoesNotExist) \<and>
   GetVersionedLastInRangeWithProof sim_readers [] [] 5 sim_tree2 sim_world2 =
     (None, None, None, Some ErrVersionDoesNotExist) \<and>
   GetVersioned sim_readers [1] 2 sim_tree2 sim_world2 = (0, Some [8], True) \<and>
   GetVersionedWithProof sim_readers [1] 2 sim_tree2 sim_world2 = (Some [8], Some (), None)"
proof -
  have absent: "versions sim_tree2 5 = None" and present: "versions sim_tree2 2 = Some 1"
    by (simp_all add: sim_defs)
  from versioned_reads [of sim_tree2 5 sim_readers "[1]" sim_world2 "[]" "[]" 1]
    versioned_reads [of sim_tree2 2 sim_readers "[1]" sim_world2 "[]" "[]" 1]
    absent present
  show ?thesis by (simp add: sim_defs)
qed

section \<open>Load\<close>








text \<open>
  C10. On a tree with \<open>latestVersion\<close> 0 and no entry for version 0, a store without roots
  makes \<open>Load\<close> skip its loop, read nil from the version map and call \<open>Clone\<close> on nil: the
  outcome of \<open>Load\<close> is whatever that call does (a panic when \<open>Clone\<close> dereferences its
  receiver), and it is never an error return.
\<close>

theorem Load_empty_store:
  assumes "getRoots C w = Inr []" and "latestVersion tree = 0" and "versions tree 0 = None"
  shows "Load C tree w =
      (case ot_Clone C None w of
         None \<Rightarrow> (Panic, tree, w)
       | Some (t, w') \<Rightarrow> (Ok (), tree\<lparr>orphaningTree := t\<rparr>, w')) \<and>
    (\<forall>e. fst (Load C tree w) \<noteq> Err e)"
  using assms by (auto simp: Load_def split: option.splits)

theorem Load_empty_store_witness:
  "ot_Clone sim_collab None (snd (NewVersionedTree sim_collab 0 sim_empty)) = None \<and>
   Load sim_collab (fst (NewVersionedTree sim_collab 0 sim_empty))
       (snd (NewVersionedTree sim_collab 0 sim_empty)) =
     (Panic, fst (NewVersionedTree sim_collab 0 sim_empty),
       snd (NewVersionedTree sim_collab 0 sim_empty))"
proof -
  let ?tree = "fst (NewVersionedTree sim_collab 0 sim_empty)"
  let ?w = "snd (NewVersionedTree sim_collab 0 sim_empty)"
  have 1: "getRoots sim_collab ?w = Inr []"
    and 2: "latestVersion ?tree = 0" and 3: "versions ?tree 0 = None"
    by (simp_all add: NewVersionedTree_def sim_defs)
  have nil: "ot_Clone sim_collab None ?w = None"
    by (simp add: sim_defs)
  from Load_empty_store [OF 1 2 3] nil show ?thesis by simp
qed

section \<open>The keys of the version map\<close>

lemma versions_inv_step:
  assumes "versions_inv tree" and "0 < v"
  shows "versions_inv (if latestVersion tree < v
             then tree\<lparr>versions := (versions tree)(v \<mapsto> t), latestVersion := v\<rparr>
             else tree\<lparr>versions := (versions tree)(v \<mapsto> t)\<rparr>)"
proof (cases "latestVersion tree < v")
  case True
  have "u \<le> v" if "versions tree u \<noteq> None" for u
  proof -
    have "u \<le> latestVersion tree" using assms(1) that by (simp add: versions_inv_def)
    with True show ?thesis by simp
  qed
  with True assms show ?thesis by (simp add: versions_inv_def)
next
  case False
  then have "v \<le> latestVersion tree" by simp
  with False assms show ?thesis by (simp add: versions_inv_def)
qed

lemma Load_roots_inv:
  "versions_inv tree \<Longrightarrow> stored_versions_positive C roots w \<Longrightarrow>
   versions_inv (fst (snd (Load_roots C roots tree w)))"
proof (induction roots arbitrary: tree w)
  case Nil
  then show ?case by simp
next
  case (Cons root roots)
  show ?case
  proof (cases "newOrphaningTree C w")
    case (Pair t w1)
    show ?thesis
    proof (cases "ot_Load C t root w1")
      case None
      with Pair Cons.prems show ?thesis by simp
    next
      case loaded: (Some w2)
      show ?thesis
      proof (cases "ot_root C w2 t")
        case None
        with Pair loaded Cons.prems show ?thesis by simp
      next
        case (Some n)
        let ?v = "node_version C w2 n"
        let ?tree2 = "(if latestVersion tree < ?v
             then tree\<lparr>versions := (versions tree)(?v \<mapsto> t), latestVersion := ?v\<rparr>
             else tree\<lparr>versions := (versions tree)(?v \<mapsto> t)\<rparr>)"
        have step: "Load_roots C (root # roots) tree w = Load_roots C roots ?tree2 w2"
          using Pair loaded Some by (simp add: Let_def)
        have pos: "0 < ?v" and rest: "stored_versions_positive C roots w2"
          using Cons.prems(2) Pair loaded Some by simp_all
        have "versions_inv ?tree2"
          using Cons.prems(1) pos by (rule versions_inv_step)
        then have "versions_inv (fst (snd (Load_roots C roots ?tree2 w2)))"
          using rest by (rule Cons.IH)
        then show ?thesis using step by simp
      qed
    qed
  qed
qed

lemma Load_inv:
  assumes "versions_inv tree"
    and "\<And>roots. getRoots C w = Inr roots \<Longrightarrow> stored_versions_positive C roots w"
  shows "versions_inv (fst (snd (Load C tree w)))"
proof (cases "getRoots C w")
  case (Inl err)
  then show ?thesis using assms(1) by (simp add: Load_def)
next
  case (Inr roots)
  obtain r tree1 w1 where lr: "Load_roots C roots tree w = (r, tree1, w1)"
    by (cases "Load_roots C roots tree w") auto
  have "versions_inv tree1"
    using Load_roots_inv [OF assms(1) assms(2) [OF Inr]] lr by simp
  then show ?thesis using Inr lr
    by (cases r) (auto simp: Load_def versions_inv_def split: option.splits)
qed

lemma SaveVersion_inv:
  assumes "versions_inv tree"
  shows "versions_inv (fst (snd (SaveVersion C version tree w)))"
proof (cases "versions tree version \<noteq> None \<or> ot_root C w (orphaningTree tree) = None \<or>
    version = 0 \<or> version \<le> latestVersion tree")
  case True
  then show ?thesis using assms by (auto simp: SaveVersion_def)
next
  case False
  then have lt: "latestVersion tree < version" and nz: "0 < version"
    by (simp_all add: word_gt_0 not_le)
  let ?tree2 = "tree\<lparr>latestVersion := version,
      versions := (versions tree)(version \<mapsto> orphaningTree tree)\<rparr>"
  have "u \<le> version" if "versions tree u \<noteq> None" for u
  proof -
    have "u \<le> latestVersion tree" using assms that by (simp add: versions_inv_def)
    with lt show ?thesis by simp
  qed
  then have inv2: "versions_inv ?tree2"
    using assms nz by (simp add: versions_inv_def)
  have "fst (snd (SaveVersion C version tree w)) = ?tree2 \<or>
      (\<exists>t. fst (snd (SaveVersion C version tree w)) = ?tree2\<lparr>orphaningTree := t\<rparr>)"
    using False by (auto simp: SaveVersion_def Let_def split: option.splits)
  then show ?thesis using inv2 by (auto simp: versions_inv_def)
qed

lemma DeleteVersion_inv:
  assumes "versions_inv tree"
  shows "versions_inv (fst (snd (DeleteVersion C version tree w)))"
proof -
  have "fst (snd (DeleteVersion C version tree w)) = tree \<or>
      fst (snd (DeleteVersion C version tree w)) =
        tree\<lparr>versions := (versions tree)(version := None)\<rparr>"
    by (simp add: DeleteVersion_def split: option.splits)
  moreover have "versions_inv (tree\<lparr>versions := (versions tree)(version := None)\<rparr>)"
    using assms by (simp add: versions_inv_def)
  ultimately show ?thesis using assms by presburger
qed

lemma NewVersionedTree_inv: "versions_inv (fst (NewVersionedTree C cacheSize w))"
  by (simp add: NewVersionedTree_def versions_inv_def Let_def split: prod.splits)

text \<open>
  C9, as the code has it. Every key of the version map is positive and at most
  \<open>latestVersion\<close>: this holds of the tree that \<open>NewVersionedTree\<close> returns, and
  \<open>SaveVersion\<close> and \<open>DeleteVersion\<close> preserve it however they end. \<open>Load\<close> preserves it,
  however it ends, provided every root it reads from the store carries a positive version:
  it registers a tree under the version of its stored root and does not check that number.
\<close>

theorem versions_inv_preserved:
  "versions_inv (fst (NewVersionedTree C cacheSize w0)) \<and>
   (versions_inv tree \<longrightarrow> versions_inv (fst (snd (SaveVersion C version tree w)))) \<and>
   (versions_inv tree \<longrightarrow> versions_inv (fst (snd (DeleteVersion C version tree w)))) \<and>
   (versions_inv tree \<and>
      (\<forall>roots. getRoots C w = Inr roots \<longrightarrow> stored_versions_positive C roots w) \<longrightarrow>
      versions_inv (fst (snd (Load C tree w))))"
proof (intro conjI impI)
  show "versions_inv (fst (NewVersionedTree C cacheSize w0))"
    by (rule NewVersionedTree_inv)
  show "versions_inv (fst (snd (SaveVersion C version tree w)))" if "versions_inv tree"
    using that by (rule SaveVersion_inv)
  show "versions_inv (fst (snd (DeleteVersion C version tree w)))" if "versions_inv tree"
    using that by (rule DeleteVersion_inv)
  show "versions_inv (fst (snd (Load C tree w)))"
    if "versions_inv tree \<and>
      (\<forall>roots. getRoots C w = Inr roots \<longrightarrow> stored_versions_positive C roots w)"
    using that by (intro Load_inv) simp_all
qed

theorem versions_inv_preserved_witness:
  "versions_inv sim_tree2 \<and>
   versions_inv (fst (snd (SaveVersion sim_collab 3 sim_tree2 sim_world2))) \<and>
   versions (fst (snd (SaveVersion sim_collab 3 sim_tree2 sim_world2))) 3 = Some 2 \<and>
   versions_inv (fst (snd (DeleteVersion sim_collab 1 sim_tree2 sim_world2))) \<and>
   getRoots sim_collab sim_world2 = Inr [[7], [8]] \<and>
   stored_versions_positive sim_collab [[7], [8]] sim_world2 \<and>
   versions_inv (fst (snd (Load sim_collab sim_tree2 sim_world2)))"
proof -
  have inv: "versions_inv sim_tree2"
    by (simp add: versions_inv_def sim_defs)
  have roots: "getRoots sim_collab sim_world2 = Inr [[7], [8]]"
    and pos: "stored_versions_positive sim_collab [[7], [8]] sim_world2"
    by (simp_all add: sim_defs)
  have saved: "versions (fst (snd (SaveVersion sim_collab 3 sim_tree2 sim_world2))) 3 = Some 2"
    by (simp add: SaveVersion_def sim_defs)
  from versions_inv_preserved [of sim_collab 0 sim_empty sim_tree2 3 sim_world2]
    versions_inv_preserved [of sim_collab 0 sim_empty sim_tree2 1 sim_world2]
    inv roots pos saved
  show ?thesis by simp
qed

text \<open>
  The claim as stated fails for \<open>Load\<close> over a store that holds a root whose node carries
  version 0: on the new tree, where the invariant holds, \<open>Load\<close> returns without error and
  has registered the key 0.
\<close>

theorem versions_inv_Load_counterexample:
  "(case NewVersionedTree sim_collab 0 sim_world0 of
      (t0, w0) \<Rightarrow>
        versions_inv t0 \<and>
        (case Load sim_collab t0 w0 of
           (r, t1, w1) \<Rightarrow> r = Ok () \<and> versions t1 0 = Some 1 \<and> \<not> versions_inv t1))"
  by (simp add: versions_inv_def NewVersionedTree_def Load_def sim_defs)

end
